theory Spec2Isabelle
  imports
    Main
    "HOL-Library.Char_ord"
    "HOL-Library.List_Lexorder"
    "HOL-Library.Product_Lexorder"
begin

section \<open>Data model\<close>

text \<open>
  The program is a pandas script.  The embedding keeps its functions and their control
  flow and makes the pieces of the data-frame library that they call explicit:

  \<^item> a CSV file is its header and its data records, as the reader tokenises them.  A field
    is \<open>Some text\<close>, or \<open>None\<close> when the reader treats it as missing (an empty cell or
    one of its NA spellings); both \<open>read_csv\<close> calls of the program use the reader's
    default rules for that.  A record shorter than the header is padded with missing
    fields, as the reader does (\<open>field\<close>); a record longer than the header is not
    accepted by every call of the reader (see \<open>read_csv\<close> and \<open>fits_header\<close>);
  \<^item> Python exceptions are values of \<open>error\<close>, results are \<open>error + 'a\<close>;
  \<^item> counts are natural numbers (Python's unbounded integers, never negative here);
  \<^item> strings are compared as Python does, character by character, a proper prefix
    being smaller (\<open>Char_ord\<close>, \<open>List_Lexorder\<close>).
\<close>

datatype error =
    ValueError string
  | IndexError string
  | FileNotFoundError string
  | TypeError string
  | OtherError string

type_synonym row = "string option list"

record csv =
  header :: "string list"
  rows :: "row list"

text \<open>A chunk: the data frame that one iteration of the reader yields.\<close>

record frame =
  columns :: "string list"
  body :: "row list"

text \<open>
  What the reader makes of a column when no dtype is requested: it either keeps the
  fields as Python strings or converts the whole column (to int64, float64 or bool).
\<close>

datatype dtype = Strings | Converted

text \<open>
  A written file: \<open>to_csv\<close> writes an optional header line and one line per record of
  the frame.  \<open>Written r\<close> is the line written for the frame record that was read from
  the source record \<open>r\<close>.  Its text is the writer's rendering of the values the reader
  inferred (a field \<open>007\<close> of a column read as integers is written \<open>7\<close>); the model
  records which record a line renders and does not compute that text.
\<close>

datatype line = Header "string list" | Written row

datatype mode = Write | Append

type_synonym files = "string \<rightharpoonup> line list"

type_synonym counts = "(string \<times> nat) list"

section \<open>The reader\<close>

function chunked :: "nat \<Rightarrow> 'a list \<Rightarrow> 'a list list" where
  "chunked n xs = (if n = 0 \<or> xs = [] then [] else take n xs # chunked n (drop n xs))"
  by pat_completeness auto
termination
  by (relation "measure (\<lambda>(n, xs). length xs)") auto

text \<open>
  Iterating \<open>pd.read_csv(..., chunksize=n)\<close>: consecutive batches of \<open>n\<close> records, the last
  one possibly shorter.  A file with a header and no data record yields one empty frame
  (the reader returns the empty frame with the file's columns on its first read).
\<close>

definition read_chunks :: "nat \<Rightarrow> row list \<Rightarrow> row list list" where
  "read_chunks n rs = (if rs = [] then [[]] else chunked n rs)"

definition column_index :: "string list \<Rightarrow> string \<Rightarrow> nat" where
  "column_index names name = length (takeWhile (\<lambda>c. c \<noteq> name) names)"

definition field :: "row \<Rightarrow> nat \<Rightarrow> string option" where
  "field r i = (if i < length r then r ! i else None)"

text \<open>\<open>chunk[name]\<close> for a name among the chunk's columns.\<close>

definition column :: "frame \<Rightarrow> string \<Rightarrow> string option list" where
  "column df name = map (\<lambda>r. field r (column_index (columns df) name)) (body df)"

definition quoted :: "string \<Rightarrow> string" where
  "quoted s = [CHR 0x27] @ s @ [CHR 0x27]"

text \<open>
  \<open>pd.read_csv(csv_path, usecols=..., chunksize=...)\<close> as the list of the chunks it
  yields.  The chunk size is validated first.  A file without a header line (\<open>header\<close>
  empty) has no columns to parse: the reader raises \<open>EmptyDataError\<close>, a \<open>ValueError\<close>,
  when it is created.  With \<open>usecols\<close> the reader then checks the names against the header,
  before any record is read, and yields frames restricted to those columns (in file
  order).  The message about \<open>usecols\<close> is shortened to its fixed part.

  Without \<open>usecols\<close> the reader does not accept every file: a record with more fields
  than the header makes it fail with a \<open>ParserError\<close> when the chunk that holds the record
  is fetched, or read the surplus leading fields as an index.  That is not modelled:
  for this call the definition describes the files in which no record has more fields
  than the header (\<open>fits_header\<close>), and the properties of \<open>write_truncated_day\<close> are stated
  for those.
\<close>

definition read_csv :: "csv \<Rightarrow> string list option \<Rightarrow> int \<Rightarrow> error + frame list" where
  "read_csv src usecols chunksize =
     (if chunksize < 1 then Inl (ValueError (quoted ''chunksize'' @ '' must be an integer >=1''))
      else if header src = [] then Inl (ValueError ''No columns to parse from file'')
      else case usecols of
        None \<Rightarrow>
          Inr (map (\<lambda>rs. \<lparr>columns = header src, body = rs\<rparr>)
                 (read_chunks (nat chunksize) (rows src)))
      | Some cols \<Rightarrow>
          if \<not> set cols \<subseteq> set (header src)
          then Inl (ValueError ''Usecols do not match columns, columns expected but not found'')
          else
            let kept = filter (\<lambda>c. c \<in> set cols) (header src) in
            Inr (map (\<lambda>rs. \<lparr>columns = kept,
                             body = map (\<lambda>r. map (\<lambda>c. field r (column_index (header src) c)) kept) rs\<rparr>)
                   (read_chunks (nat chunksize) (rows src))))"

section \<open>truncate\_data.py\<close>

subsection \<open>compute\_daily\_counts\<close>

text \<open>
  \<open>Series.value_counts()\<close>: missing values are dropped (\<open>dropna=True\<close> is the default),
  each distinct value is paired with its number of occurrences, most frequent first.
\<close>

definition dropna :: "string option list \<Rightarrow> string list" where
  "dropna col = concat (map (\<lambda>v. case v of None \<Rightarrow> [] | Some s \<Rightarrow> [s]) col)"

definition value_counts :: "string option list \<Rightarrow> counts" where
  "value_counts col =
     (let vals = dropna col;
          keys = rev (remdups (rev vals))
      in rev (sort_key snd (rev (map (\<lambda>k. (k, count_list vals k)) keys))))"

text \<open>A Python dict keeps its keys in insertion order: an association list.\<close>

fun dict_get :: "counts \<Rightarrow> string \<Rightarrow> nat \<Rightarrow> nat" where
  "dict_get [] k dflt = dflt"
| "dict_get ((k', v) # ps) k dflt = (if k' = k then v else dict_get ps k dflt)"

fun dict_set :: "counts \<Rightarrow> string \<Rightarrow> nat \<Rightarrow> counts" where
  "dict_set [] k v = [(k, v)]"
| "dict_set ((k', v') # ps) k v = (if k' = k then (k, v) # ps else (k', v') # dict_set ps k v)"

text \<open>The inner loop: \<open>for d, c in vc.items(): counts[d] = counts.get(d, 0) + int(c)\<close>.\<close>

fun add_value_counts :: "counts \<Rightarrow> counts \<Rightarrow> counts" where
  "add_value_counts [] counts = counts"
| "add_value_counts ((d, c) # vc) counts =
     add_value_counts vc (dict_set counts d (dict_get counts d 0 + c))"

text \<open>The outer loop over the chunks.\<close>

fun count_chunks :: "string \<Rightarrow> frame list \<Rightarrow> counts \<Rightarrow> counts" where
  "count_chunks date_column [] counts = counts"
| "count_chunks date_column (chunk # chunks) counts =
     count_chunks date_column chunks
       (add_value_counts (value_counts (column chunk date_column)) counts)"

text \<open>
  The returned data frame has the columns \<open>date_column\<close> and \<open>count\<close>; it is modelled by
  its list of (date, count) records, \<open>sorted(counts.items())\<close>.
\<close>

definition compute_daily_counts :: "csv \<Rightarrow> string \<Rightarrow> int \<Rightarrow> error + counts" where
  "compute_daily_counts src date_column chunksize =
     (case read_csv src (Some [date_column]) chunksize of
        Inl e \<Rightarrow> Inl e
      | Inr chunks \<Rightarrow> Inr (sort (count_chunks date_column chunks [])))"

subsection \<open>get\_middle\_date\<close>

text \<open>
  \<open>daily_counts\<close> is the frame that \<open>compute_daily_counts\<close> built for the same
  \<open>date_column\<close> (line 49; \<open>main\<close> passes the same argument to both functions): its
  columns are \<open>[date_column, "count"]\<close>.  \<open>sort_values(date_column)\<close> first resolves the
  label.  When the date column is itself named \<open>count\<close> the frame has two columns of that
  name and the label is not unique: a \<open>ValueError\<close>, raised on an empty frame as well,
  before any record is indexed.
\<close>

definition get_middle_date :: "counts \<Rightarrow> string \<Rightarrow> error + string" where
  "get_middle_date daily_counts date_column =
     (if date_column = ''count''
      then Inl (ValueError (''The column label '' @ quoted ''count'' @ '' is not unique.''))
      else
        let ordered = sort_key fst daily_counts;
            mid_idx = length ordered div 2
        in if mid_idx < length ordered then Inr (fst (ordered ! mid_idx))
           else Inl (IndexError ''single positional indexer is out-of-bounds''))"

subsection \<open>write\_truncated\_day\<close>

text \<open>
  \<open>chunk[date_column] == target_date\<close>.  Unlike the call in \<open>compute_daily_counts\<close>, which
  passes \<open>dtype={date_column: "string"}\<close>, this call of the reader requests no dtype, so
  the library decides for each chunk whether the column stays text; \<open>infer\<close> stands for
  that decision and is a parameter of the model, about which the properties below assume
  nothing unless they say so.  In a column kept as text a present field is the string
  of its text and a missing one is NaN, which equals no string.  A converted column
  holds no string, and comparing it with a string is false on every record.
\<close>

definition eq_str :: "(string option list \<Rightarrow> dtype) \<Rightarrow> string option list \<Rightarrow> string \<Rightarrow> bool list" where
  "eq_str infer col target =
     (case infer col of
        Strings \<Rightarrow> map (\<lambda>v. v = Some target) col
      | Converted \<Rightarrow> map (\<lambda>v. False) col)"

text \<open>\<open>chunk[mask]\<close>: the records where the mask is true, in order.\<close>

definition getitem_mask :: "frame \<Rightarrow> bool list \<Rightarrow> frame" where
  "getitem_mask df sel = df\<lparr>body := map fst (filter snd (zip (body df) sel))\<rparr>"

text \<open>\<open>df.to_csv(path, mode=..., index=False, header=...)\<close>.\<close>

definition to_csv :: "frame \<Rightarrow> files \<Rightarrow> string \<Rightarrow> mode \<Rightarrow> bool \<Rightarrow> files" where
  "to_csv df fs path m hdr =
     (let old = (case m of Write \<Rightarrow> [] | Append \<Rightarrow> (case fs path of None \<Rightarrow> [] | Some ls \<Rightarrow> ls));
          new = (if hdr then [Header (columns df)] else []) @ map Written (body df)
      in fs(path \<mapsto> old @ new))"

definition column_not_found :: "string \<Rightarrow> string" where
  "column_not_found date_column =
     ''Column '' @ [CHR 0x27] @ date_column @ [CHR 0x27] @ '' not found in CSV.''"

text \<open>The loop of \<open>write_truncated_day\<close>; its state is the flag \<open>first\<close> and the files.\<close>

fun write_chunks ::
  "(string option list \<Rightarrow> dtype) \<Rightarrow> string \<Rightarrow> string \<Rightarrow> string \<Rightarrow> frame list \<Rightarrow>
     bool \<times> files \<Rightarrow> error + bool \<times> files" where
  "write_chunks infer output_path date_column target_date [] st = Inr st"
| "write_chunks infer output_path date_column target_date (chunk # chunks) (first, fs) =
     (if date_column \<notin> set (columns chunk) then Inl (ValueError (column_not_found date_column))
      else
        let filtered = getitem_mask chunk (eq_str infer (column chunk date_column) target_date)
        in if body filtered = []
           then write_chunks infer output_path date_column target_date chunks (first, fs)
           else write_chunks infer output_path date_column target_date chunks
                  (False, to_csv filtered fs output_path (if first then Write else Append) first))"

text \<open>
  The source file is given by its content \<open>src\<close>; the files written so far are \<open>fs\<close>, and
  the result is the files after the call.
\<close>

definition write_truncated_day ::
  "(string option list \<Rightarrow> dtype) \<Rightarrow> csv \<Rightarrow> files \<Rightarrow> string \<Rightarrow> string \<Rightarrow> string \<Rightarrow> int \<Rightarrow>
     error + files" where
  "write_truncated_day infer src fs output_path date_column target_date chunksize =
     (case read_csv src None chunksize of
        Inl e \<Rightarrow> Inl e
      | Inr chunks \<Rightarrow>
          (case write_chunks infer output_path date_column target_date chunks (True, fs) of
             Inl e \<Rightarrow> Inl e
           | Inr (first, fs') \<Rightarrow> Inr fs'))"

text \<open>The data records of a written file.\<close>

definition data_rows :: "line list \<Rightarrow> row list" where
  "data_rows ls = concat (map (\<lambda>l. case l of Header h \<Rightarrow> [] | Written r \<Rightarrow> [r]) ls)"

subsection \<open>resolve\_paths and main\<close>










function str_nat :: "nat \<Rightarrow> string" where
  "str_nat n = (if n < 10 then [char_of (48 + n)] else str_nat (n div 10) @ [char_of (48 + n mod 10)])"
  by pat_completeness auto
termination
  by (relation "measure (\<lambda>n. n)") auto




section \<open>data\_fetching.py\<close>

text \<open>
  \<open>kagglehub.dataset_load\<close> is the hosted service: \<open>dataset_load\<close> gives, for the
  arguments of a call, the frame it returns or the exception it raises.  A
  \<open>ValueError\<close> stands for that class and its subclasses (parser and decoding errors
  among them), \<open>OtherError\<close> for an exception of any other class.  The calls made are
  recorded, in order.
\<close>

datatype pyval = PyStr string | PyNone

type_synonym kwargs = "(string \<times> (string \<times> pyval) list) list"

datatype adapter = PANDAS

definition file_path :: string where
  "file_path = ''itineraries.csv''"

definition attempts :: "kwargs list" where
  "attempts =
     [[],
      [(''pandas_kwargs'', [(''encoding'', PyStr ''latin-1'')])],
      [(''pandas_kwargs'',
        [(''encoding'', PyStr ''latin-1''), (''engine'', PyStr ''python''),
         (''sep'', PyNone), (''on_bad_lines'', PyStr ''skip'')])]]"

fun try_attempts ::
  "(kwargs \<Rightarrow> error + 'df) \<Rightarrow> kwargs list \<Rightarrow> error option \<Rightarrow> kwargs list \<Rightarrow>
     (error + 'df) \<times> kwargs list" where
  "try_attempts load [] last_err calls =
     ((case last_err of
         None \<Rightarrow> Inl (TypeError ''exceptions must derive from BaseException'')
       | Some err \<Rightarrow> Inl err), calls)"
| "try_attempts load (kw # rest) last_err calls =
     (case load kw of
        Inr df \<Rightarrow> (Inr df, calls @ [kw])
      | Inl (ValueError m) \<Rightarrow> try_attempts load rest (Some (ValueError m)) (calls @ [kw])
      | Inl err \<Rightarrow> (Inl err, calls @ [kw]))"

definition load_dataset ::
  "(adapter \<Rightarrow> string \<Rightarrow> string \<Rightarrow> kwargs \<Rightarrow> error + 'df) \<Rightarrow> (error + 'df) \<times> kwargs list" where
  "load_dataset dataset_load =
     try_attempts (dataset_load PANDAS ''dilwong/flightprices'' file_path) attempts None []"

section \<open>Notions used to state the properties\<close>

text \<open>The date column of the whole source, record by record.\<close>

definition date_values :: "csv \<Rightarrow> string \<Rightarrow> string option list" where
  "date_values src date_column =
     map (\<lambda>r. field r (column_index (header src) date_column)) (rows src)"

text \<open>
  The daily count table as the specification describes it: one record per distinct date
  of the column, with the number of its occurrences, dates ascending.
\<close>

definition daily_count_table :: "string option list \<Rightarrow> counts" where
  "daily_count_table col =
     map (\<lambda>d. (d, count_list col (Some d))) (sort (remdups (dropna col)))"

text \<open>
  No record of the source has more fields than the header: the files that the reader
  parses into frames with the header's columns when no \<open>usecols\<close> is given.
\<close>

definition fits_header :: "csv \<Rightarrow> bool" where
  "fits_header src = list_all (\<lambda>r. length r \<le> length (header src)) (rows src)"

text \<open>The records of a chunk that the extraction keeps.\<close>

definition selected :: "(string option list \<Rightarrow> dtype) \<Rightarrow> string \<Rightarrow> string \<Rightarrow> frame \<Rightarrow> row list" where
  "selected infer date_column target_date chunk =
     body (getitem_mask chunk (eq_str infer (column chunk date_column) target_date))"

text \<open>The content of a path, empty when there is no file.\<close>

definition content :: "files \<Rightarrow> string \<Rightarrow> line list" where
  "content fs path = (case fs path of None \<Rightarrow> [] | Some ls \<Rightarrow> ls)"

text \<open>The records that the extraction keeps over all chunks, in reading order.\<close>

definition matches :: "(string option list \<Rightarrow> dtype) \<Rightarrow> csv \<Rightarrow> string \<Rightarrow> string \<Rightarrow> int \<Rightarrow> row list" where
  "matches infer src dc t n =
     concat (map (\<lambda>rs. selected infer dc t \<lparr>columns = header src, body = rs\<rparr>)
               (read_chunks (nat n) (rows src)))"

section \<open>Sample inputs\<close>

text \<open>
  The scenario of the specification: the dates \<open>2022-01-01\<close> (twice), \<open>2022-01-02\<close>
  (three times) and \<open>2022-01-03\<close> (once), here with a second column.
\<close>

definition scenario :: csv where
  "scenario =
     \<lparr>header = [''flightDate'', ''totalFare''],
      rows = [[Some ''2022-01-02'', Some ''248.6''], [Some ''2022-01-01'', Some ''103.1''],
              [Some ''2022-01-02'', Some ''77.0''], [Some ''2022-01-03'', Some ''310.9''],
              [Some ''2022-01-01'', Some ''99.5''], [Some ''2022-01-02'', None]]\<rparr>"

text \<open>A source with one dated record and one record whose date is missing.\<close>

definition gap_source :: csv where
  "gap_source =
     \<lparr>header = [''flightDate'', ''totalFare''],
      rows = [[Some ''2022-01-01'', Some ''103.1''], [None, Some ''99.5'']]\<rparr>"


text \<open>Sources whose dates are written without separators.\<close>

definition compact_dates :: csv where
  "compact_dates = \<lparr>header = [''flightDate''], rows = [[Some ''20220101'']]\<rparr>"

definition compact_fares :: csv where
  "compact_fares =
     \<lparr>header = [''flightDate'', ''totalFare''],
      rows = [[Some ''20220101'', Some ''103.1''], [Some ''20220102'', Some ''99.5'']]\<rparr>"

text \<open>
  Two instances of the reader's inference.  \<open>infer_text\<close> leaves every column as text.
  \<open>infer_digits\<close> is the part of the library's rule that the examples need: a column
  whose fields are all present and all made of at most 18 decimal digits is read as
  int64; it says nothing about other columns, which it leaves as text.
\<close>

definition infer_text :: "string option list \<Rightarrow> dtype" where
  "infer_text col = Strings"

definition digits :: "string \<Rightarrow> bool" where
  "digits s = (s \<noteq> [] \<and> length s \<le> 18 \<and> list_all (\<lambda>c. c \<in> set ''0123456789'') s)"

definition infer_digits :: "string option list \<Rightarrow> dtype" where
  "infer_digits col =
     (if col \<noteq> [] \<and> list_all (\<lambda>v. case v of None \<Rightarrow> False | Some s \<Rightarrow> digits s) col
      then Converted else Strings)"







text \<open>
  A service that is unreachable for the first call (an exception that is not a
  \<open>ValueError\<close>) and would answer any later one.
\<close>

definition outage :: "adapter \<Rightarrow> string \<Rightarrow> string \<Rightarrow> kwargs \<Rightarrow> error + nat" where
  "outage ad handle path kw = (if kw = [] then Inl (OtherError ''ConnectionError'') else Inr 7)"

text \<open>
  A service whose parser rejects the file under every configuration; the message tells
  the configurations apart (by their number of pandas options: 0, 1 and 4).
\<close>

definition unparsable :: "adapter \<Rightarrow> string \<Rightarrow> string \<Rightarrow> kwargs \<Rightarrow> error + nat" where
  "unparsable ad handle path kw =
     Inl (ValueError (''ParserError '' @ str_nat (length (concat (map snd kw)))))"

text \<open>Does an outcome lead the loop of \<open>load_dataset\<close> to its next configuration?\<close>

fun retried :: "error + 'df \<Rightarrow> bool" where
  "retried (Inl (ValueError m)) = True"
| "retried r = False"

declare chunked.simps [simp del]
declare str_nat.simps [simp del]

section \<open>The reader and the counting loops\<close>

lemma concat_chunked: "0 < n \<Longrightarrow> concat (chunked n xs) = xs"
proof (induction n xs rule: chunked.induct)
  case (1 n xs)
  show ?case
  proof (cases "xs = []")
    case True
    then show ?thesis by (simp add: chunked.simps)
  next
    case False
    with "1.prems" have "concat (chunked n (drop n xs)) = drop n xs"
      using "1.IH" by simp
    with False "1.prems" show ?thesis
      by (subst chunked.simps) simp
  qed
qed

lemma concat_read_chunks: "0 < n \<Longrightarrow> concat (read_chunks n rs) = rs"
  by (simp add: read_chunks_def concat_chunked)

lemma read_chunks_nonempty: "0 < n \<Longrightarrow> read_chunks n rs \<noteq> []"
  by (auto simp: read_chunks_def chunked.simps[of n rs])

lemma dict_get_dict_set:
  "dict_get (dict_set ps k v) k' dflt = (if k' = k then v else dict_get ps k' dflt)"
  by (induction ps) auto

lemma map_fst_dict_set:
  "map fst (dict_set ps k v) = (if k \<in> set (map fst ps) then map fst ps else map fst ps @ [k])"
  by (induction ps) (fastforce simp: image_iff)+

lemma keys_dict_set: "set (map fst (dict_set ps k v)) = insert k (set (map fst ps))"
  by (auto simp: map_fst_dict_set)

lemma distinct_dict_set: "distinct (map fst ps) \<Longrightarrow> distinct (map fst (dict_set ps k v))"
  by (simp add: map_fst_dict_set)

lemma dict_get_map_of: "dict_get ps k dflt = (case map_of ps k of None \<Rightarrow> dflt | Some v \<Rightarrow> v)"
  by (induction ps) auto

lemma dict_get_add_value_counts:
  "dict_get (add_value_counts vc cs) d 0 = dict_get cs d 0 + sum_list (map snd (filter (\<lambda>p. fst p = d) vc))"
  by (induction vc cs rule: add_value_counts.induct) (auto simp: dict_get_dict_set)

lemma keys_add_value_counts:
  "set (map fst (add_value_counts vc cs)) = set (map fst cs) \<union> set (map fst vc)"
  by (induction vc cs rule: add_value_counts.induct) (auto simp: keys_dict_set simp del: set_map)

lemma distinct_add_value_counts:
  "distinct (map fst cs) \<Longrightarrow> distinct (map fst (add_value_counts vc cs))"
  by (induction vc cs rule: add_value_counts.induct) (auto simp: distinct_dict_set)

lemma set_dropna: "set (dropna col) = {d. Some d \<in> set col}"
  by (induction col) (auto simp: dropna_def split: option.splits)

lemma count_dropna: "count_list (dropna col) d = count_list col (Some d)"
  by (induction col) (auto simp: dropna_def split: option.splits)

lemma length_dropna: "length (dropna col) = length (filter (\<lambda>v. v \<noteq> None) col)"
  by (induction col) (auto simp: dropna_def split: option.splits)

lemma filter_eq_distinct: "distinct ks \<Longrightarrow> filter (\<lambda>k. k = d) ks = (if d \<in> set ks then [d] else [])"
  by (induction ks) auto

lemma keys_value_counts: "set (map fst (value_counts col)) = {d. Some d \<in> set col}"
  by (simp add: value_counts_def Let_def image_image set_dropna)

lemma filter_value_counts:
  "filter (\<lambda>p. fst p = d) (value_counts col) =
     (if Some d \<in> set col then [(d, count_list col (Some d))] else [])"
proof -
  let ?vals = "dropna col"
  let ?keys = "rev (remdups (rev ?vals))"
  have d: "distinct ?keys" by simp
  have "filter (\<lambda>p. fst p = d) (map (\<lambda>k. (k, count_list ?vals k)) ?keys)
      = map (\<lambda>k. (k, count_list ?vals k)) (filter (\<lambda>k. k = d) ?keys)"
    by (simp add: filter_map comp_def)
  also have "\<dots> = (if d \<in> set ?vals then [(d, count_list ?vals d)] else [])"
    using filter_eq_distinct[OF d, of d] by simp
  finally have *: "filter (\<lambda>p. fst p = d) (map (\<lambda>k. (k, count_list ?vals k)) ?keys)
     = (if Some d \<in> set col then [(d, count_list col (Some d))] else [])"
    by (simp add: set_dropna count_dropna)
  have "filter (\<lambda>p. fst p = d) (value_counts col)
     = rev (sort_key snd (rev (filter (\<lambda>p. fst p = d) (map (\<lambda>k. (k, count_list ?vals k)) ?keys))))"
    by (simp add: value_counts_def Let_def rev_filter[symmetric] filter_sort)
  then show ?thesis by (simp add: *)
qed

lemma total_value_counts:
  "sum_list (map snd (filter (\<lambda>p. fst p = d) (value_counts col))) = count_list col (Some d)"
  by (simp add: filter_value_counts count_list_0_iff)

lemma dict_get_count_chunks:
  "dict_get (count_chunks dc chunks cs) d 0 =
     dict_get cs d 0 + count_list (concat (map (\<lambda>ch. column ch dc) chunks)) (Some d)"
  by (induction dc chunks cs rule: count_chunks.induct)
     (simp_all add: dict_get_add_value_counts total_value_counts)

lemma keys_count_chunks:
  "set (map fst (count_chunks dc chunks cs)) =
     set (map fst cs) \<union> {d. Some d \<in> set (concat (map (\<lambda>ch. column ch dc) chunks))}"
  by (induction dc chunks cs rule: count_chunks.induct)
     (auto simp: keys_add_value_counts keys_value_counts simp del: set_map set_concat)

lemma distinct_count_chunks:
  "distinct (map fst cs) \<Longrightarrow> distinct (map fst (count_chunks dc chunks cs))"
  by (induction dc chunks cs rule: count_chunks.induct) (simp_all add: distinct_add_value_counts)

lemma set_count_chunks:
  "set (count_chunks dc chunks []) =
     (\<lambda>d. (d, count_list (concat (map (\<lambda>ch. column ch dc) chunks)) (Some d))) `
       {d. Some d \<in> set (concat (map (\<lambda>ch. column ch dc) chunks))}"
  (is "set ?D = ?f ` ?K")
proof -
  have dist: "distinct (map fst ?D)" by (simp add: distinct_count_chunks)
  have keys: "set (map fst ?D) = ?K" using keys_count_chunks[of dc chunks "[]"] by simp
  have val: "v = snd (?f k)" if "(k, v) \<in> set ?D" for k v
  proof -
    from that dist have "map_of ?D k = Some v" by simp
    then have "dict_get ?D k 0 = v" by (simp add: dict_get_map_of)
    then show ?thesis by (simp add: dict_get_count_chunks)
  qed
  show ?thesis
  proof (rule set_eqI)
    fix p :: "string \<times> nat"
    obtain k v where p: "p = (k, v)" by (cases p)
    show "p \<in> set ?D \<longleftrightarrow> p \<in> ?f ` ?K"
    proof
      assume a: "p \<in> set ?D"
      then have "k \<in> set (map fst ?D)" unfolding p by force
      then have "k \<in> ?K" using keys by simp
      moreover have "v = snd (?f k)" using a val unfolding p by blast
      ultimately show "p \<in> ?f ` ?K" unfolding p by auto
    next
      assume "p \<in> ?f ` ?K"
      then have k: "k \<in> ?K" and v: "v = snd (?f k)" unfolding p by auto
      from k keys have "k \<in> set (map fst ?D)" by simp
      then obtain v' where v': "(k, v') \<in> set ?D" by auto
      then have "v' = v" using val v by simp
      with v' show "p \<in> set ?D" unfolding p by simp
    qed
  qed
qed

lemma sorted_daily_count_table: "sorted (daily_count_table col)"
proof -
  let ?ks = "sort (remdups (dropna col))"
  have "sorted_wrt (<) ?ks" by (simp add: strict_sorted_iff)
  then have "sorted_wrt (\<lambda>a b. (a, count_list col (Some a)) \<le> (b, count_list col (Some b))) ?ks"
    by (rule sorted_wrt_mono_rel[rotated]) simp
  then show ?thesis by (simp add: daily_count_table_def sorted_wrt_map)
qed

lemma distinct_daily_count_table: "distinct (daily_count_table col)"
  by (simp add: daily_count_table_def distinct_map inj_on_def)

lemma set_daily_count_table:
  "set (daily_count_table col) = (\<lambda>d. (d, count_list col (Some d))) ` {d. Some d \<in> set col}"
  by (simp add: daily_count_table_def set_dropna)

lemma sort_count_chunks:
  "sort (count_chunks dc chunks []) = daily_count_table (concat (map (\<lambda>ch. column ch dc) chunks))"
proof (rule sorted_distinct_set_unique)
  have "distinct (map fst (count_chunks dc chunks []))" by (simp add: distinct_count_chunks)
  then show "distinct (sort (count_chunks dc chunks []))" by (simp add: distinct_map)
qed (simp_all add: sorted_daily_count_table distinct_daily_count_table set_daily_count_table set_count_chunks)

lemma kept_date_column:
  assumes "dc \<in> set hs"
  shows "\<exists>ks. filter (\<lambda>c. c \<in> set [dc]) hs = dc # ks"
proof (cases "filter (\<lambda>c. c \<in> set [dc]) hs")
  case Nil
  with assms show ?thesis by (auto simp: filter_empty_conv)
next
  case (Cons k ks)
  then have "k \<in> set (filter (\<lambda>c. c \<in> set [dc]) hs)" by simp
  then have "k = dc" by simp
  with Cons show ?thesis by simp
qed

lemma column_usecols:
  assumes "dc \<in> set hs"
  shows "column \<lparr>columns = filter (\<lambda>c. c \<in> set [dc]) hs,
                  body = map (\<lambda>r. map (\<lambda>c. field r (column_index hs c)) (filter (\<lambda>c. c \<in> set [dc]) hs)) rs\<rparr> dc
         = map (\<lambda>r. field r (column_index hs dc)) rs"
proof -
  from kept_date_column[OF assms] obtain ks where ks: "filter (\<lambda>c. c \<in> set [dc]) hs = dc # ks" ..
  show ?thesis unfolding ks by (simp add: column_def column_index_def field_def comp_def)
qed

lemma read_csv_usecols_columns:
  assumes "dc \<in> set (header src)" and "1 \<le> n" and "read_csv src (Some [dc]) n = Inr chunks"
  shows "concat (map (\<lambda>ch. column ch dc) chunks) = date_values src dc"
proof -
  let ?kept = "filter (\<lambda>c. c \<in> set [dc]) (header src)"
  let ?mk = "\<lambda>rs. \<lparr>columns = ?kept, body = map (\<lambda>r. map (\<lambda>c. field r (column_index (header src) c)) ?kept) rs\<rparr>"
  from assms(1) have ne: "header src \<noteq> []" by auto
  from assms ne have chunks: "chunks = map ?mk (read_chunks (nat n) (rows src))"
    by (simp add: read_csv_def Let_def)
  have "concat (map (\<lambda>ch. column ch dc) chunks)
      = concat (map (map (\<lambda>r. field r (column_index (header src) dc))) (read_chunks (nat n) (rows src)))"
    unfolding chunks map_map comp_def using column_usecols[OF assms(1)] by simp
  also have "\<dots> = map (\<lambda>r. field r (column_index (header src) dc)) (concat (read_chunks (nat n) (rows src)))"
    by (simp add: map_concat)
  also have "\<dots> = date_values src dc"
    using assms(2) by (simp add: concat_read_chunks date_values_def)
  finally show ?thesis .
qed

lemma compute_daily_counts_eq:
  assumes "dc \<in> set (header src)" and "1 \<le> n"
  shows "compute_daily_counts src dc n = Inr (daily_count_table (date_values src dc))"
proof -
  from assms(1) have ne: "header src \<noteq> []" by auto
  from assms ne obtain chunks where c: "read_csv src (Some [dc]) n = Inr chunks"
    by (simp add: read_csv_def Let_def)
  show ?thesis
    unfolding compute_daily_counts_def c
    by (simp add: sort_count_chunks read_csv_usecols_columns[OF assms c])
qed

lemma compute_daily_counts_missing:
  assumes "dc \<notin> set (header src)" and "1 \<le> n" and "header src \<noteq> []"
  shows "compute_daily_counts src dc n =
           Inl (ValueError ''Usecols do not match columns, columns expected but not found'')"
  using assms by (simp add: compute_daily_counts_def read_csv_def)

lemma compute_daily_counts_no_header:
  assumes "header src = []" and "1 \<le> n"
  shows "compute_daily_counts src dc n = Inl (ValueError ''No columns to parse from file'')"
  using assms by (simp add: compute_daily_counts_def read_csv_def)

lemma sum_daily_count_table:
  "sum_list (map snd (daily_count_table col)) = length (dropna col)"
proof -
  let ?ks = "sort (remdups (dropna col))"
  have "sum_list (map snd (daily_count_table col)) = sum_list (map (count_list (dropna col)) ?ks)"
    by (simp add: daily_count_table_def comp_def flip: count_dropna)
  also have "\<dots> = sum (count_list (dropna col)) (set ?ks)"
    by (rule sum_list_distinct_conv_sum_set) simp
  also have "\<dots> = length (dropna col)"
    by (simp add: sum_count_set)
  finally show ?thesis .
qed

lemma map_of_daily_count_table:
  "map_of (daily_count_table col) d =
     (if Some d \<in> set col then Some (count_list col (Some d)) else None)"
  by (simp add: daily_count_table_def map_of_map_restrict restrict_map_def set_dropna)

lemma filter_zip_map: "map fst (filter snd (zip xs (map p xs))) = filter p xs"
  by (induction xs) auto

lemma filter_zip_False: "filter snd (zip xs (map (\<lambda>v. False) ys)) = []"
  by (auto simp: filter_empty_conv dest: set_zip_rightD)

lemma selected_Strings:
  "infer (column chunk dc) = Strings \<Longrightarrow>
     selected infer dc t chunk =
       filter (\<lambda>r. field r (column_index (columns chunk) dc) = Some t) (body chunk)"
  using filter_zip_map[of "body chunk" "\<lambda>r. field r (column_index (columns chunk) dc) = Some t"]
  by (simp add: selected_def getitem_mask_def eq_str_def column_def comp_def)

lemma selected_Converted:
  "infer (column chunk dc) = Converted \<Longrightarrow> selected infer dc t chunk = []"
  by (simp add: selected_def getitem_mask_def eq_str_def filter_zip_False)

lemma selected_subset:
  "set (selected infer dc t chunk) \<subseteq>
     {r \<in> set (body chunk). field r (column_index (columns chunk) dc) = Some t}"
  by (cases "infer (column chunk dc)") (auto simp: selected_Strings selected_Converted)

lemma columns_getitem_mask [simp]: "columns (getitem_mask df sel) = columns df"
  by (simp add: getitem_mask_def)

lemma write_chunks_eq:
  assumes "dc \<in> set hs" and "\<forall>ch \<in> set chunks. columns ch = hs"
  shows "write_chunks infer out dc t chunks (first, fs) =
           Inr (let m = concat (map (selected infer dc t) chunks)
                in if m = [] then (first, fs)
                   else (False, fs(out \<mapsto> (if first then [Header hs] else content fs out) @ map Written m)))"
  using assms(2)
proof (induction chunks arbitrary: first fs)
  case Nil
  then show ?case by simp
next
  case (Cons ch chunks)
  then have hs: "columns ch = hs" and rest: "\<forall>c \<in> set chunks. columns c = hs" by simp_all
  define m where "m = concat (map (selected infer dc t) chunks)"
  have IH: "write_chunks infer out dc t chunks (b, g) =
              Inr (if m = [] then (b, g)
                   else (False, g(out \<mapsto> (if b then [Header hs] else content g out) @ map Written m)))"
    for b g
    using Cons.IH[OF rest, of b g] by (simp add: m_def Let_def del: concat_eq_Nil_conv)
  let ?sel = "selected infer dc t ch"
  have all: "concat (map (selected infer dc t) (ch # chunks)) = ?sel @ m"
    by (simp add: m_def)
  show ?case
  proof (cases "?sel = []")
    case True
    have "write_chunks infer out dc t (ch # chunks) (first, fs) =
            write_chunks infer out dc t chunks (first, fs)"
      using True assms(1) hs by (simp add: selected_def Let_def)
    then show ?thesis
      unfolding all Let_def using True by (simp add: IH)
  next
    case False
    let ?fs' = "to_csv (getitem_mask ch (eq_str infer (column ch dc) t)) fs out
                  (if first then Write else Append) first"
    have fs': "?fs' = fs(out \<mapsto> (if first then [Header hs] else content fs out) @ map Written ?sel)"
      by (simp add: to_csv_def Let_def content_def selected_def hs)
    have step: "write_chunks infer out dc t (ch # chunks) (first, fs) =
                  write_chunks infer out dc t chunks (False, ?fs')"
      using False assms(1) hs by (simp add: selected_def Let_def)
    show ?thesis
      unfolding step all Let_def IH fs' using False by (simp add: content_def)
  qed
qed

lemma read_csv_all:
  assumes "1 \<le> n" and "header src \<noteq> []"
  shows "read_csv src None n =
           Inr (map (\<lambda>rs. \<lparr>columns = header src, body = rs\<rparr>) (read_chunks (nat n) (rows src)))"
  using assms by (simp add: read_csv_def)

lemma write_truncated_day_eq:
  assumes "dc \<in> set (header src)" and "1 \<le> n"
  shows "write_truncated_day infer src fs out dc t n =
           Inr (if matches infer src dc t n = [] then fs
                else fs(out \<mapsto> Header (header src) # map Written (matches infer src dc t n)))"
proof -
  let ?chunks = "map (\<lambda>rs. \<lparr>columns = header src, body = rs\<rparr>) (read_chunks (nat n) (rows src))"
  have cols: "\<forall>ch \<in> set ?chunks. columns ch = header src" by simp
  have m: "concat (map (selected infer dc t) ?chunks) = matches infer src dc t n"
    by (simp add: matches_def comp_def)
  from assms(1) have ne: "header src \<noteq> []" by auto
  show ?thesis
    unfolding write_truncated_day_def read_csv_all[OF assms(2) ne] sum.case
      write_chunks_eq[OF assms(1) cols] m Let_def
    by simp
qed

lemma write_truncated_day_missing:
  assumes "dc \<notin> set (header src)" and "1 \<le> n" and "header src \<noteq> []"
  shows "write_truncated_day infer src fs out dc t n = Inl (ValueError (column_not_found dc))"
proof -
  from assms(2) have "0 < nat n" by simp
  then obtain rs rss where r: "read_chunks (nat n) (rows src) = rs # rss"
    using read_chunks_nonempty[of "nat n" "rows src"] by (cases "read_chunks (nat n) (rows src)") auto
  show ?thesis
    unfolding write_truncated_day_def read_csv_all[OF assms(2,3)] r using assms(1) by simp
qed

lemma matches_subset:
  assumes "1 \<le> n"
  shows "set (matches infer src dc t n) \<subseteq>
           {r \<in> set (rows src). field r (column_index (header src) dc) = Some t}"
proof
  fix r assume "r \<in> set (matches infer src dc t n)"
  then obtain rs where rs: "rs \<in> set (read_chunks (nat n) (rows src))"
    and r: "r \<in> set (selected infer dc t \<lparr>columns = header src, body = rs\<rparr>)"
    by (auto simp: matches_def)
  from r selected_subset[of infer dc t "\<lparr>columns = header src, body = rs\<rparr>"]
  have "r \<in> set rs" and f: "field r (column_index (header src) dc) = Some t" by auto
  with rs have "r \<in> set (concat (read_chunks (nat n) (rows src)))" by auto
  with assms have "r \<in> set (rows src)" by (simp add: concat_read_chunks)
  with f show "r \<in> {r \<in> set (rows src). field r (column_index (header src) dc) = Some t}" by simp
qed

lemma matches_Strings:
  assumes "1 \<le> n"
    and "\<forall>rs \<in> set (read_chunks (nat n) (rows src)).
           infer (map (\<lambda>r. field r (column_index (header src) dc)) rs) = Strings"
  shows "matches infer src dc t n =
           filter (\<lambda>r. field r (column_index (header src) dc) = Some t) (rows src)"
proof -
  have "matches infer src dc t n =
          concat (map (filter (\<lambda>r. field r (column_index (header src) dc) = Some t))
                    (read_chunks (nat n) (rows src)))"
    unfolding matches_def using assms(2)
    by (intro arg_cong[where f = concat] map_cong) (simp_all add: selected_Strings column_def)
  also have "\<dots> = filter (\<lambda>r. field r (column_index (header src) dc) = Some t)
                     (concat (read_chunks (nat n) (rows src)))"
    by (simp add: filter_concat)
  finally show ?thesis using assms(1) by (simp add: concat_read_chunks)
qed

section \<open>Properties\<close>

lemma map_insort_key: "map f (insort_key f x xs) = insort (f x) (map f xs)"
  by (induction xs) auto

lemma map_sort_key: "map f (sort_key f xs) = sort (map f xs)"
  by (induction xs) (auto simp: map_insort_key)

text \<open>
  Claim C4 as stated fails when the date column is itself named \<open>count\<close>: the table then
  has two columns of that name, and \<open>get_middle_date\<close> raises a \<open>ValueError\<close> instead of
  returning a date.
\<close>

theorem get_middle_date_count_label:
  "get_middle_date [(''2022-01-01'', 2), (''2022-01-02'', 3), (''2022-01-03'', 1)] ''count'' =
     Inl (ValueError (''The column label '' @ quoted ''count'' @ '' is not unique.''))"
  by (simp add: get_middle_date_def)

text \<open>
  Claim C4, amended.  For every non-empty daily count table whose date column is not
  named \<open>count\<close>, \<open>get_middle_date\<close> returns the date at the zero-based index
  \<open>length div 2\<close> of the dates sorted ascending; for the table of the specification's
  scenario, with the date column \<open>flightDate\<close>, that is \<open>2022-01-02\<close>, at index 1.  The
  witness is a table of even length, given unsorted: the result is the first date of the
  upper half.
\<close>

theorem get_middle_date_index:
  assumes "daily_counts \<noteq> []" and "date_column \<noteq> ''count''"
  shows "get_middle_date daily_counts date_column =
           Inr (sort (map fst daily_counts) ! (length daily_counts div 2)) \<and>
         get_middle_date [(''2022-01-01'', 2), (''2022-01-02'', 3), (''2022-01-03'', 1)]
           ''flightDate'' = Inr ''2022-01-02''"
proof
  from assms(1) have mid: "length daily_counts div 2 < length (sort_key fst daily_counts)"
    by (cases daily_counts) simp_all
  then have "fst (sort_key fst daily_counts ! (length daily_counts div 2)) =
               map fst (sort_key fst daily_counts) ! (length daily_counts div 2)"
    by simp
  with mid assms(2) show "get_middle_date daily_counts date_column =
                   Inr (sort (map fst daily_counts) ! (length daily_counts div 2))"
    by (simp add: get_middle_date_def Let_def map_sort_key)
next
  let ?t = "[(''2022-01-01'', 2), (''2022-01-02'', 3), (''2022-01-03'', 1 :: nat)]"
  have "sort_key fst ?t = ?t" by code_simp
  then show "get_middle_date ?t ''flightDate'' = Inr ''2022-01-02''"
    by (simp add: get_middle_date_def)
qed

theorem get_middle_date_index_witness:
  "[(''2022-01-04'', 1), (''2022-01-01'', 5), (''2022-01-03'', 2), (''2022-01-02'', 2 :: nat)] \<noteq> [] \<and>
   ''flightDate'' \<noteq> ''count'' \<and>
   get_middle_date [(''2022-01-04'', 1), (''2022-01-01'', 5), (''2022-01-03'', 2), (''2022-01-02'', 2)]
     ''flightDate'' = Inr ''2022-01-03''"
proof -
  let ?t = "[(''2022-01-04'', 1), (''2022-01-01'', 5), (''2022-01-03'', 2), (''2022-01-02'', 2 :: nat)]"
  have ne: "?t \<noteq> []" by simp
  have dc: "''flightDate'' \<noteq> ''count''" by simp
  have "sort (map fst ?t) ! (length ?t div 2) = ''2022-01-03''" by code_simp
  with get_middle_date_index[OF ne dc] ne dc show ?thesis by simp
qed

text \<open>
  Claim C2.  For every source, every date column and any two chunk sizes of at least 1,
  \<open>compute_daily_counts\<close> returns the same result: the same table when the column
  exists, the same error when it does not.
\<close>

theorem chunksize_irrelevant:
  assumes "1 \<le> n" and "1 \<le> m"
  shows "compute_daily_counts src date_column n = compute_daily_counts src date_column m"
proof (cases "date_column \<in> set (header src)")
  case True
  with assms show ?thesis by (simp add: compute_daily_counts_eq)
next
  case False
  show ?thesis
  proof (cases "header src = []")
    case True
    with assms show ?thesis by (simp add: compute_daily_counts_no_header)
  next
    case ne: False
    with False assms show ?thesis by (simp add: compute_daily_counts_missing)
  qed
qed

theorem chunksize_irrelevant_witness:
  "(1::int) \<le> 2 \<and> (1::int) \<le> 3 \<and>
   compute_daily_counts scenario ''flightDate'' 2 = compute_daily_counts scenario ''flightDate'' 3 \<and>
   compute_daily_counts scenario ''flightDate'' 3 =
     Inr [(''2022-01-01'', 2), (''2022-01-02'', 3), (''2022-01-03'', 1)]"
proof -
  have "compute_daily_counts scenario ''flightDate'' 3 =
     Inr [(''2022-01-01'', 2), (''2022-01-02'', 3), (''2022-01-03'', 1)]" by code_simp
  with chunksize_irrelevant[of 2 3 scenario "''flightDate''"] show ?thesis by simp
qed




text \<open>
  Claim C10.  For a source that the reader parses (it has the date column, and no record
  has more fields than the header), a record whose date is missing is counted under no
  key: the counts of the table sum to the number of records with a date.  Such a record
  is not written by \<open>write_truncated_day\<close> either, whatever the target date: every line
  written to a fresh path renders a record that has a date.
\<close>

theorem missing_dates_excluded:
  assumes "date_column \<in> set (header src)" and "1 \<le> n" and "fs output_path = None"
    and "fits_header src"
  shows "\<exists>t fs'.
           compute_daily_counts src date_column n = Inr t \<and>
           sum_list (map snd t) =
             length (filter (\<lambda>r. field r (column_index (header src) date_column) \<noteq> None) (rows src)) \<and>
           write_truncated_day infer src fs output_path date_column target_date n = Inr fs' \<and>
           list_all (\<lambda>r. field r (column_index (header src) date_column) \<noteq> None)
             (data_rows (content fs' output_path))"
proof -
  let ?i = "column_index (header src) date_column"
  let ?m = "matches infer src date_column target_date n"
  have len: "length (dropna (date_values src date_column)) =
               length (filter (\<lambda>r. field r ?i \<noteq> None) (rows src))"
    by (simp add: length_dropna date_values_def filter_map comp_def)
  have dr: "data_rows (Header h # map Written rs) = rs" for h rs
    by (induction rs) (simp_all add: data_rows_def)
  have m: "list_all (\<lambda>r. field r ?i \<noteq> None) ?m"
    using matches_subset[OF assms(2), of infer src date_column target_date]
    by (auto simp: list_all_iff)
  have dn: "data_rows [] = []" by (simp add: data_rows_def)
  show ?thesis
    using assms(1,2,3) m
    by (simp add: compute_daily_counts_eq sum_daily_count_table len write_truncated_day_eq
        content_def dr dn)
qed

theorem missing_dates_excluded_witness:
  "\<exists>t fs'.
     compute_daily_counts gap_source ''flightDate'' 1 = Inr t \<and>
     sum_list (map snd t) = 1 \<and>
     write_truncated_day infer_text gap_source Map.empty ''out.csv'' ''flightDate'' ''2022-01-01'' 1 =
       Inr fs' \<and>
     list_all (\<lambda>r. field r (column_index (header gap_source) ''flightDate'') \<noteq> None)
       (data_rows (content fs' ''out.csv''))"
proof -
  have a: "''flightDate'' \<in> set (header gap_source)" by (simp add: gap_source_def)
  have b: "length (filter (\<lambda>r. field r (column_index (header gap_source) ''flightDate'') \<noteq> None)
             (rows gap_source)) = 1"
    by (simp add: gap_source_def field_def column_index_def)
  have c: "fits_header gap_source" by (simp add: fits_header_def gap_source_def)
  from missing_dates_excluded[OF a _ _ c, of 1 Map.empty "''out.csv''" infer_text "''2022-01-01''"]
  show ?thesis unfolding b by simp
qed

text \<open>
  Claim C7.  For a source that the reader parses (it has the date column, and no record
  has more fields than the header), when no record's date equals the target date,
  \<open>write_truncated_day\<close> returns normally and leaves the files as they were: it creates
  no output file and raises nothing.
\<close>

theorem no_match_no_file:
  assumes "date_column \<in> set (header src)" and "1 \<le> n"
    and "\<forall>r \<in> set (rows src). field r (column_index (header src) date_column) \<noteq> Some target_date"
    and "fits_header src"
  shows "write_truncated_day infer src fs output_path date_column target_date n = Inr fs"
proof -
  have "matches infer src date_column target_date n = []"
    using matches_subset[OF assms(2), of infer src date_column target_date] assms(3)
    by (cases "matches infer src date_column target_date n") auto
  with assms(1,2) show ?thesis by (simp add: write_truncated_day_eq)
qed

theorem no_match_no_file_witness:
  "write_truncated_day infer_text scenario Map.empty ''out.csv'' ''flightDate'' ''2022-02-30'' 2 =
     Inr Map.empty"
  by (rule no_match_no_file)
     (simp_all add: scenario_def field_def column_index_def fits_header_def)

text \<open>
  Claim C8.  For a source that the reader parses (it has a header line, and no record
  has more fields than the header), when the date column is absent from the header,
  \<open>compute_daily_counts\<close> fails when the reader is created, with the reader's
  \<open>ValueError\<close> for unknown \<open>usecols\<close>, and \<open>write_truncated_day\<close> fails with its own
  \<open>ValueError\<close> for the missing column (chunk sizes below 1 are rejected before the
  header is looked at).
\<close>

theorem missing_column_errors:
  assumes "date_column \<notin> set (header src)" and "1 \<le> n"
    and "header src \<noteq> []" and "fits_header src"
  shows "compute_daily_counts src date_column n =
           Inl (ValueError ''Usecols do not match columns, columns expected but not found'') \<and>
         write_truncated_day infer src fs output_path date_column target_date n =
           Inl (ValueError (column_not_found date_column))"
  using assms(1,2,3) by (simp add: compute_daily_counts_missing write_truncated_day_missing)

theorem missing_column_errors_witness:
  "compute_daily_counts scenario ''searchDate'' 2 =
     Inl (ValueError ''Usecols do not match columns, columns expected but not found'') \<and>
   write_truncated_day infer_text scenario Map.empty ''out.csv'' ''searchDate'' ''2022-01-02'' 2 =
     Inl (ValueError (column_not_found ''searchDate''))"
  by (rule missing_column_errors) (simp_all add: scenario_def fits_header_def)







text \<open>
  Claim C9, amended.  \<open>load_dataset\<close> tries its three configurations in order for as long
  as the attempts fail with a \<open>ValueError\<close>, the class its loop catches.  Its outcome is
  that of the first attempt that does not raise a \<open>ValueError\<close>: the result, if that
  attempt succeeds, or its exception, raised at once with no further attempt.  When all
  three attempts raise a \<open>ValueError\<close>, the last one's is raised.  The second component
  lists the calls made.
\<close>

theorem load_dataset_ladder:
  "load_dataset dataset_load =
     (let load = dataset_load PANDAS ''dilwong/flightprices'' file_path
      in case dropWhile (\<lambda>kw. retried (load kw)) attempts of
           [] \<Rightarrow> (load (last attempts), attempts)
         | kw # rest \<Rightarrow> (load kw, takeWhile (\<lambda>kw. retried (load kw)) attempts @ [kw]))"
proof -
  define load where "load = dataset_load PANDAS ''dilwong/flightprices'' file_path"
  have step: "try_attempts load (kw # as) le calls =
                (if retried (load kw)
                 then try_attempts load as (Some (projl (load kw))) (calls @ [kw])
                 else (load kw, calls @ [kw]))" for kw as le calls
    by (cases "load kw" rule: retried.cases) simp_all
  have last: "retried r \<Longrightarrow> Inl (projl r) = r" for r :: "error + 'a"
    by (cases r rule: retried.cases) simp_all
  show ?thesis
    unfolding load_dataset_def load_def[symmetric] Let_def
    by (simp add: attempts_def step last del: try_attempts.simps(2))
qed

theorem load_dataset_ladder_witness:
  "load_dataset unparsable = (Inl (ValueError ''ParserError 4''), attempts)"
proof -
  have "str_nat (Suc (Suc (Suc (Suc 0)))) = ''4''" by code_simp
  then show ?thesis
    using load_dataset_ladder[of unparsable]
    by (simp add: unparsable_def attempts_def Let_def)
qed

text \<open>
  Claim C9 as stated fails: when the first attempt fails with an exception that is not a
  \<open>ValueError\<close>, that exception is raised after one call, although the second
  configuration would have succeeded.
\<close>

theorem load_dataset_counterexample:
  "load_dataset outage = (Inl (OtherError ''ConnectionError''), [[]]) \<and>
   outage PANDAS ''dilwong/flightprices'' file_path (attempts ! 1) = Inr 7"
  by (simp add: load_dataset_def outage_def attempts_def)

text \<open>
  What \<open>write_truncated_day\<close> writes for a source that the reader parses, when the reader
  keeps the date column as text in every chunk: the header and one line for each record
  whose date is the target date, in source order; and then the number of lines written
  for a date of the table is its count.
\<close>

lemma write_truncated_day_text:
  assumes "date_column \<in> set (header src)" and "1 \<le> n"
    and "\<forall>rs \<in> set (read_chunks (nat n) (rows src)).
           infer (map (\<lambda>r. field r (column_index (header src) date_column)) rs) = Strings"
    and "fits_header src"
  shows "write_truncated_day infer src fs output_path date_column target_date n =
           Inr (let m = filter (\<lambda>r. field r (column_index (header src) date_column) = Some target_date)
                          (rows src)
                in if m = [] then fs else fs(output_path \<mapsto> Header (header src) # map Written m))"
  using assms(1,2,3) by (simp add: write_truncated_day_eq matches_Strings Let_def)

lemma length_filter_count_list: "length (filter (\<lambda>x. g x = v) xs) = count_list (map g xs) v"
  by (induction xs) auto

lemma data_rows_written: "data_rows (Header h # map Written rs) = rs"
  by (induction rs) (simp_all add: data_rows_def)

lemma cross_check_text:
  assumes "date_column \<in> set (header src)" and "1 \<le> n"
    and "\<forall>rs \<in> set (read_chunks (nat n) (rows src)).
           infer (map (\<lambda>r. field r (column_index (header src) date_column)) rs) = Strings"
    and "compute_daily_counts src date_column n = Inr daily_counts"
    and "(d, c) \<in> set daily_counts"
    and "fs output_path = None"
    and "fits_header src"
  shows "\<exists>fs'. write_truncated_day infer src fs output_path date_column d n = Inr fs' \<and>
               length (data_rows (content fs' output_path)) = c"
proof -
  let ?col = "date_values src date_column"
  let ?m = "filter (\<lambda>r. field r (column_index (header src) date_column) = Some d) (rows src)"
  from assms(1,2,4) have "daily_counts = daily_count_table ?col"
    by (simp add: compute_daily_counts_eq)
  with assms(5) have c: "c = count_list ?col (Some d)" and d: "Some d \<in> set ?col"
    by (auto simp: set_daily_count_table)
  have len: "length ?m = c"
    unfolding c date_values_def by (rule length_filter_count_list)
  from d have "count_list ?col (Some d) \<noteq> 0" by (simp add: count_list_0_iff)
  with len c have ne: "?m \<noteq> []" by auto
  show ?thesis
    using ne len
    by (simp add: write_truncated_day_text[OF assms(1,2,3,7)] Let_def content_def data_rows_written)
qed

text \<open>
  Claim C1 (the number of data records written for a date of the table equals its count)
  at a source whose only date is \<open>20220101\<close>: the table counts one record for it, read
  with \<open>dtype string\<close>; the extraction reads the column as a number, finds no record
  equal to the string, and writes no file.
\<close>

theorem compact_dates_cross_check:
  "compute_daily_counts compact_dates ''flightDate'' 1 = Inr [(''20220101'', 1)] \<and>
   write_truncated_day infer_digits compact_dates Map.empty ''out.csv'' ''flightDate'' ''20220101'' 1 =
     Inr Map.empty"
proof -
  have "compute_daily_counts compact_dates ''flightDate'' 1 = Inr [(''20220101'', 1)]"
    by code_simp
  moreover have "matches infer_digits compact_dates ''flightDate'' ''20220101'' 1 = []"
    by code_simp
  ultimately show ?thesis
    by (simp add: write_truncated_day_eq compact_dates_def)
qed

text \<open>
  Claim C3 (the output holds exactly the records whose date string-equals the target
  date) at a source with the dates \<open>20220101\<close> and \<open>20220102\<close>: one record has the target
  date \<open>20220101\<close>, and no file is written.
\<close>

theorem compact_fares_truncated:
  "filter (\<lambda>r. field r (column_index (header compact_fares) ''flightDate'') = Some ''20220101'')
     (rows compact_fares) = [[Some ''20220101'', Some ''103.1'']] \<and>
   write_truncated_day infer_digits compact_fares Map.empty ''out.csv'' ''flightDate'' ''20220101'' 2 =
     Inr Map.empty"
proof -
  have "filter (\<lambda>r. field r (column_index (header compact_fares) ''flightDate'') = Some ''20220101'')
     (rows compact_fares) = [[Some ''20220101'', Some ''103.1'']]"
    by code_simp
  moreover have "matches infer_digits compact_fares ''flightDate'' ''20220101'' 2 = []"
    by code_simp
  ultimately show ?thesis
    by (simp add: write_truncated_day_eq compact_fares_def)
qed


end
